theory Spec2Isabelle
  imports Main "HOL-Library.Multiset" "HOL-Library.Monad_Syntax"
begin

section \<open>Cards and hands (PokerStruct-Edited.cpp)\<close>

text \<open>
  \<^verbatim>\<open>enum class CardSuit { Invalid = 0, Hearts = 1, Diamonds = 2, Spades = 3, Clubs = 4 }\<close>.
  Suits are only ever compared for equality.  The enumerator \<^verbatim>\<open>Invalid\<close> exists for both
  enums of the source; the suit one is called \<open>InvalidSuit\<close> here.
\<close>

datatype CardSuit = InvalidSuit | Hearts | Diamonds | Spades | Clubs

text \<open>
  \<^verbatim>\<open>enum class CardRank\<close> has underlying type \<^verbatim>\<open>int\<close>; the source reads it through
  \<^verbatim>\<open>static_cast<int>\<close> and builds it by a cast from \<^verbatim>\<open>int\<close> (the deck casts 1..13), so a rank
  is modelled as the integer it holds.  The enumerators are the numbers below.
\<close>

type_synonym CardRank = int

abbreviation (input) InvalidRank :: CardRank where "InvalidRank \<equiv> 0"
abbreviation (input) Two :: CardRank where "Two \<equiv> 2"
abbreviation (input) Three :: CardRank where "Three \<equiv> 3"
abbreviation (input) Four :: CardRank where "Four \<equiv> 4"
abbreviation (input) Five :: CardRank where "Five \<equiv> 5"
abbreviation (input) Six :: CardRank where "Six \<equiv> 6"
abbreviation (input) Seven :: CardRank where "Seven \<equiv> 7"
abbreviation (input) Eight :: CardRank where "Eight \<equiv> 8"
abbreviation (input) Nine :: CardRank where "Nine \<equiv> 9"
abbreviation (input) Ten :: CardRank where "Ten \<equiv> 10"
abbreviation (input) Jack :: CardRank where "Jack \<equiv> 11"
abbreviation (input) Queen :: CardRank where "Queen \<equiv> 12"
abbreviation (input) King :: CardRank where "King \<equiv> 13"
abbreviation (input) Ace :: CardRank where "Ace \<equiv> 14"

record Card =
  Suit :: CardSuit
  Rank :: CardRank

text \<open>
  \<^verbatim>\<open>enum class HandRank\<close> with its numeric values.  \<open>Set\<close> and \<open>Pair\<close> are names of HOL, so
  these two enumerators carry a suffix.
\<close>

datatype HandRank =
  StraightFlush | Quad | FullHouse | Flush | Straight | Set_rank | TwoPair | Pair_rank | HighCard

fun HandRank_value :: "HandRank \<Rightarrow> int" where
  "HandRank_value StraightFlush = 9"
| "HandRank_value Quad = 8"
| "HandRank_value FullHouse = 7"
| "HandRank_value Flush = 6"
| "HandRank_value Straight = 5"
| "HandRank_value Set_rank = 4"
| "HandRank_value TwoPair = 3"
| "HandRank_value Pair_rank = 2"
| "HandRank_value HighCard = 1"

text \<open>
  \<^verbatim>\<open>struct Hand { std::vector<Card> Cards; HandRank Rank; ... }\<close>.  The field \<^verbatim>\<open>Rank\<close> of a hand
  is never written or read by the source; it is kept as \<open>HRank\<close> (the name \<open>Rank\<close> is the
  card's field).
\<close>

record Hand =
  Cards :: "Card list"
  HRank :: HandRank

subsection \<open>Reading the vector\<close>

text \<open>
  \<^verbatim>\<open>Cards[i]\<close> is \<^verbatim>\<open>std::vector::operator[]\<close>, which has no bounds check: a read past the end
  is undefined behaviour.  The model makes that read the value \<open>None\<close>, and every function that
  reads a fixed position returns an \<open>option\<close>: \<open>None\<close> means that the run has left the
  vector, \<open>Some v\<close> that it returned \<open>v\<close>.
\<close>

definition card_at :: "Hand \<Rightarrow> nat \<Rightarrow> Card option" where
  "card_at h i = (if i < length (Cards h) then Some (Cards h ! i) else None)"

definition rank_at :: "Hand \<Rightarrow> nat \<Rightarrow> int option" where
  "rank_at h i = map_option Rank (card_at h i)"

definition suit_at :: "Hand \<Rightarrow> nat \<Rightarrow> CardSuit option" where
  "suit_at h i = map_option Suit (card_at h i)"

section \<open>SortHand\<close>

text \<open>
  The inner \<^verbatim>\<open>while (j >= 0 && Cards[j].Rank > key.Rank) { Cards[j + 1] = Cards[j]; --j; }\<close>.
  \<open>j\<close> is a signed \<^verbatim>\<open>int\<close> that ends at \<open>-1\<close> when the key is smaller than every card before
  it.  The guard \<open>j \<ge> 0\<close> is tested first, and \<open>j + 1 \<le> i < size\<close>, so every access of the sort
  is inside the vector.
\<close>

function SortHand_shift :: "Card list \<Rightarrow> Card \<Rightarrow> int \<Rightarrow> Card list \<times> int" where
  "SortHand_shift cs key j =
     (if j \<ge> 0 \<and> Rank (cs ! nat j) > Rank key
      then SortHand_shift (cs[nat (j + 1) := cs ! nat j]) key (j - 1)
      else (cs, j))"
  by pat_completeness auto
termination
  by (relation "measure (\<lambda>(cs, key, j). nat (j + 1))") auto

declare SortHand_shift.simps [simp del]

text \<open>One round of the outer loop: take the key, shift, store the key at \<open>j + 1\<close>.\<close>

definition SortHand_step :: "Card list \<Rightarrow> nat \<Rightarrow> Card list" where
  "SortHand_step cs i =
     (let key = cs ! i;
          (cs', j) = SortHand_shift cs key (int i - 1)
      in cs'[nat (j + 1) := key])"

text \<open>The outer \<^verbatim>\<open>for (int i = 1; i < Cards.size(); ++i)\<close>.\<close>

function SortHand_loop :: "Card list \<Rightarrow> nat \<Rightarrow> Card list" where
  "SortHand_loop cs i =
     (if i < length cs then SortHand_loop (SortHand_step cs i) (i + 1) else cs)"
  by pat_completeness auto
termination
proof (relation "measure (\<lambda>(cs, i). length cs - i)")
  show "wf (measure (\<lambda>(cs :: Card list, i). length cs - i))"
    by simp
next
  fix cs :: "Card list" and i :: nat
  assume less: "i < length cs"
  have shift: "length (fst (SortHand_shift xs key j)) = length xs" for xs key j
  proof (induction xs key j rule: SortHand_shift.induct)
    case (1 xs key j)
    then show ?case
      by (subst SortHand_shift.simps) simp
  qed
  have "length (SortHand_step cs i) = length cs"
    using shift [of cs "cs ! i" "int i - 1"]
    by (cases "SortHand_shift cs (cs ! i) (int i - 1)") (simp add: SortHand_step_def)
  with less show "((SortHand_step cs i, i + 1), (cs, i)) \<in> measure (\<lambda>(cs, i). length cs - i)"
    by simp
qed

declare SortHand_loop.simps [simp del]

definition SortHand :: "Hand \<Rightarrow> Hand" where
  "SortHand h = h\<lparr>Cards := SortHand_loop (Cards h) 1\<rparr>"

section \<open>The predicates of the classifier\<close>

text \<open>
  \<^verbatim>\<open>IsPair\<close>: the loop counts the positions \<open>i < 4\<close> with \<^verbatim>\<open>Cards[i].Rank == Cards[i + 1].Rank\<close>
  and the result is \<^verbatim>\<open>pairCount == 1\<close>.
\<close>

function IsPair_loop :: "Hand \<Rightarrow> nat \<Rightarrow> int \<Rightarrow> bool option" where
  "IsPair_loop h i pairCount =
     (if i < 4 then do {
        a \<leftarrow> rank_at h i;
        b \<leftarrow> rank_at h (i + 1);
        IsPair_loop h (i + 1) (if a = b then pairCount + 1 else pairCount)
      } else Some (pairCount = 1))"
  by pat_completeness auto
termination
  by (relation "measure (\<lambda>(h, i, c). 4 - i)") auto

declare IsPair_loop.simps [simp del]

definition IsPair :: "Hand \<Rightarrow> bool option" where
  "IsPair h = IsPair_loop h 0 0"

text \<open>
  \<^verbatim>\<open>IsSet\<close>: counts the positions \<open>i < 3\<close> where three cards in a row have one rank; the second
  comparison is only made when the first holds (\<^verbatim>\<open>&&\<close>).
\<close>

function IsSet_loop :: "Hand \<Rightarrow> nat \<Rightarrow> int \<Rightarrow> bool option" where
  "IsSet_loop h i cnt =
     (if i < 3 then do {
        a \<leftarrow> rank_at h i;
        b \<leftarrow> rank_at h (i + 1);
        if a = b then do {
          b' \<leftarrow> rank_at h (i + 1);
          c \<leftarrow> rank_at h (i + 2);
          IsSet_loop h (i + 1) (if b' = c then cnt + 1 else cnt)
        } else IsSet_loop h (i + 1) cnt
      } else Some (cnt = 1))"
  by pat_completeness auto
termination
  by (relation "measure (\<lambda>(h, i, c). 3 - i)") auto

declare IsSet_loop.simps [simp del]

definition IsSet :: "Hand \<Rightarrow> bool option" where
  "IsSet h = IsSet_loop h 0 0"

text \<open>
  \<^verbatim>\<open>IsTwoPair\<close>: as \<^verbatim>\<open>IsPair\<close>, but a match also skips the next position (the \<^verbatim>\<open>++i\<close> in the
  body, before the loop's own \<^verbatim>\<open>++i\<close>).
\<close>

function IsTwoPair_loop :: "Hand \<Rightarrow> nat \<Rightarrow> int \<Rightarrow> bool option" where
  "IsTwoPair_loop h i cnt =
     (if i < 4 then do {
        a \<leftarrow> rank_at h i;
        b \<leftarrow> rank_at h (i + 1);
        if a = b then IsTwoPair_loop h (i + 2) (cnt + 1)
        else IsTwoPair_loop h (i + 1) cnt
      } else Some (cnt = 2))"
  by pat_completeness auto
termination
  by (relation "measure (\<lambda>(h, i, c). 4 - i)") auto

declare IsTwoPair_loop.simps [simp del]

definition IsTwoPair :: "Hand \<Rightarrow> bool option" where
  "IsTwoPair h = IsTwoPair_loop h 0 0"

text \<open>\<^verbatim>\<open>IsStraight\<close>: returns false at the first position whose successor is not one higher.\<close>

function IsStraight_loop :: "Hand \<Rightarrow> nat \<Rightarrow> bool option" where
  "IsStraight_loop h i =
     (if i < 4 then do {
        a \<leftarrow> rank_at h i;
        b \<leftarrow> rank_at h (i + 1);
        if a + 1 \<noteq> b then Some False else IsStraight_loop h (i + 1)
      } else Some True)"
  by pat_completeness auto
termination
  by (relation "measure (\<lambda>(h, i). 4 - i)") auto

declare IsStraight_loop.simps [simp del]

definition IsStraight :: "Hand \<Rightarrow> bool option" where
  "IsStraight h = IsStraight_loop h 0"

text \<open>\<^verbatim>\<open>IsFlush\<close>: returns false at the first position whose successor has another suit.\<close>

function IsFlush_loop :: "Hand \<Rightarrow> nat \<Rightarrow> bool option" where
  "IsFlush_loop h i =
     (if i < 4 then do {
        a \<leftarrow> suit_at h i;
        b \<leftarrow> suit_at h (i + 1);
        if a \<noteq> b then Some False else IsFlush_loop h (i + 1)
      } else Some True)"
  by pat_completeness auto
termination
  by (relation "measure (\<lambda>(h, i). 4 - i)") auto

declare IsFlush_loop.simps [simp del]

definition IsFlush :: "Hand \<Rightarrow> bool option" where
  "IsFlush h = IsFlush_loop h 0"

text \<open>\<^verbatim>\<open>IsFullHouse() { return IsSet() && IsTwoPair(); }\<close>, with the short circuit of \<^verbatim>\<open>&&\<close>.\<close>

definition IsFullHouse :: "Hand \<Rightarrow> bool option" where
  "IsFullHouse h = do { s \<leftarrow> IsSet h; if s then IsTwoPair h else Some False }"

text \<open>
  \<^verbatim>\<open>IsQuad\<close>: \<^verbatim>\<open>(Cards[0].Rank == Cards[3].Rank) || (Cards[1].Rank == Cards[4].Rank)\<close>, with the
  short circuit of \<^verbatim>\<open>||\<close>.
\<close>

definition IsQuad :: "Hand \<Rightarrow> bool option" where
  "IsQuad h = do {
     a \<leftarrow> rank_at h 0;
     b \<leftarrow> rank_at h 3;
     if a = b then Some True
     else do { c \<leftarrow> rank_at h 1; d \<leftarrow> rank_at h 4; Some (c = d) }
   }"

text \<open>\<^verbatim>\<open>IsStraightFlush() { return IsStraight() && IsFlush(); }\<close>.\<close>

definition IsStraightFlush :: "Hand \<Rightarrow> bool option" where
  "IsStraightFlush h = do { s \<leftarrow> IsStraight h; if s then IsFlush h else Some False }"

section \<open>EvaluateHand\<close>

text \<open>
  The score is a \<^verbatim>\<open>double\<close> built from \<^verbatim>\<open>pow(14, k)\<close> with \<open>k \<le> 5\<close>, small integer factors, sums
  and one negation.  With the ranks the program builds (0 to 14) every intermediate value is
  an integer below \<open>2^53\<close>, which a double holds exactly, so the score is modelled as the
  integer it is.
\<close>

text \<open>
  The straight flush, flush and high card branches return the same expression over the five
  cards and differ only in the leading constant (9, 6 and 1); \<open>kickers5\<close> is that expression.
\<close>

definition kickers5 :: "Hand \<Rightarrow> int \<Rightarrow> int option" where
  "kickers5 h category = do {
     r4 \<leftarrow> rank_at h 4;
     r3 \<leftarrow> rank_at h 3;
     r2 \<leftarrow> rank_at h 2;
     r1 \<leftarrow> rank_at h 1;
     r0 \<leftarrow> rank_at h 0;
     Some (category * 14 ^ 5 + r4 * 14 ^ 4 + r3 * 14 ^ 3 + r2 * 14 ^ 2 + r1 * 14 ^ 1 + r0)
   }"

text \<open>The branch for two pairs (lines 329 to 343 of the source).\<close>

definition EvaluateHand_TwoPair :: "Hand \<Rightarrow> int option" where
  "EvaluateHand_TwoPair h = do {
     a0 \<leftarrow> rank_at h 0;
     a1 \<leftarrow> rank_at h 1;
     if a0 \<noteq> a1 then do {
       r4 \<leftarrow> rank_at h 4; r2 \<leftarrow> rank_at h 2; r1 \<leftarrow> rank_at h 1;
       Some (3 * 14 ^ 5 + r4 * 14 ^ 4 + r2 * 14 ^ 3 + r1)
     } else do {
       b1 \<leftarrow> rank_at h 1;
       b2 \<leftarrow> rank_at h 2;
       if b1 \<noteq> b2 then do {
         r4 \<leftarrow> rank_at h 4; r1 \<leftarrow> rank_at h 1; r2 \<leftarrow> rank_at h 2;
         Some (3 * 14 ^ 5 + r4 * 14 ^ 4 + r1 * 14 ^ 3 + r2)
       } else do {
         r3 \<leftarrow> rank_at h 3; r1 \<leftarrow> rank_at h 1; r4 \<leftarrow> rank_at h 4;
         Some (3 * 14 ^ 5 + r3 * 14 ^ 4 + r1 * 14 ^ 3 + r4)
       }
     }
   }"

text \<open>The branch for one pair (lines 346 to 371 of the source).\<close>

definition EvaluateHand_Pair :: "Hand \<Rightarrow> int option" where
  "EvaluateHand_Pair h = do {
     a0 \<leftarrow> rank_at h 0;
     a1 \<leftarrow> rank_at h 1;
     if a0 = a1 then do {
       r0 \<leftarrow> rank_at h 0; r4 \<leftarrow> rank_at h 4; r3 \<leftarrow> rank_at h 3; r2 \<leftarrow> rank_at h 2;
       Some (2 * 14 ^ 5 + r0 * 14 ^ 4 + r4 * 14 ^ 3 + r3 * 14 ^ 2 + r2 * 14 ^ 1)
     } else do {
       b1 \<leftarrow> rank_at h 1;
       b2 \<leftarrow> rank_at h 2;
       if b1 = b2 then do {
         r1 \<leftarrow> rank_at h 1; r4 \<leftarrow> rank_at h 4; r3 \<leftarrow> rank_at h 3; r0 \<leftarrow> rank_at h 0;
         Some (2 * 14 ^ 5 + r1 * 14 ^ 4 + r4 * 14 ^ 3 + r3 * 14 ^ 2 + r0 * 14 ^ 1)
       } else do {
         c2 \<leftarrow> rank_at h 2;
         c3 \<leftarrow> rank_at h 3;
         if c2 = c3 then do {
           r3 \<leftarrow> rank_at h 3; r4 \<leftarrow> rank_at h 4; r1 \<leftarrow> rank_at h 1; r0 \<leftarrow> rank_at h 0;
           Some (2 * 14 ^ 5 + r3 * 14 ^ 4 + r4 * 14 ^ 3 + r1 * 14 ^ 2 + r0 * 14 ^ 1)
         } else do {
           r3 \<leftarrow> rank_at h 3; r2 \<leftarrow> rank_at h 2; r1 \<leftarrow> rank_at h 1; r0 \<leftarrow> rank_at h 0;
           Some (2 * 14 ^ 5 + r3 * 14 ^ 4 + r2 * 14 ^ 3 + r1 * 14 ^ 2 + r0 * 14 ^ 1)
         }
       }
     }
   }"

text \<open>
  \<^verbatim>\<open>EvaluateHand\<close>: the chain of \<^verbatim>\<open>if\<close>/\<^verbatim>\<open>else if\<close> in the order of the source.  In the full
  house branch the source adds \<^verbatim>\<open>- static_cast<int>(Cards[4].Rank)\<close> (line 313 starts with a
  unary minus), so that rank is subtracted.
\<close>

definition EvaluateHand :: "Hand \<Rightarrow> int option" where
  "EvaluateHand h = do {
     sf \<leftarrow> IsStraightFlush h;
     if sf then kickers5 h 9
     else do {
       q \<leftarrow> IsQuad h;
       if q then do {
         r3 \<leftarrow> rank_at h 3; r4 \<leftarrow> rank_at h 4;
         Some (8 * 14 ^ 5 + r3 * 14 ^ 4 + r4)
       } else do {
         fh \<leftarrow> IsFullHouse h;
         if fh then do {
           r2 \<leftarrow> rank_at h 2; r4 \<leftarrow> rank_at h 4;
           Some (7 * 14 ^ 5 + r2 * 14 ^ 4 + - r4)
         } else do {
           fl \<leftarrow> IsFlush h;
           if fl then kickers5 h 6
           else do {
             st \<leftarrow> IsStraight h;
             if st then do { r4 \<leftarrow> rank_at h 4; Some (5 * 14 ^ 5 + r4) }
             else do {
               s \<leftarrow> IsSet h;
               if s then do {
                 r2 \<leftarrow> rank_at h 2; r4 \<leftarrow> rank_at h 4;
                 Some (4 * 14 ^ 5 + r2 * 14 ^ 4 + r4)
               } else do {
                 tp \<leftarrow> IsTwoPair h;
                 if tp then EvaluateHand_TwoPair h
                 else do {
                   p \<leftarrow> IsPair h;
                   if p then EvaluateHand_Pair h else kickers5 h 1
                 }
               }
             }
           }
         }
       }
     }
   }"

text \<open>
  The source has no function that returns the category: the category of a hand is the branch
  that \<^verbatim>\<open>EvaluateHand\<close> takes.  \<open>ResolveCategory\<close> runs the same chain of predicates, in the same
  order, and names the branch.
\<close>

definition ResolveCategory :: "Hand \<Rightarrow> HandRank option" where
  "ResolveCategory h = do {
     sf \<leftarrow> IsStraightFlush h;
     if sf then Some StraightFlush
     else do {
       q \<leftarrow> IsQuad h;
       if q then Some Quad
       else do {
         fh \<leftarrow> IsFullHouse h;
         if fh then Some FullHouse
         else do {
           fl \<leftarrow> IsFlush h;
           if fl then Some Flush
           else do {
             st \<leftarrow> IsStraight h;
             if st then Some Straight
             else do {
               s \<leftarrow> IsSet h;
               if s then Some Set_rank
               else do {
                 tp \<leftarrow> IsTwoPair h;
                 if tp then Some TwoPair
                 else do {
                   p \<leftarrow> IsPair h;
                   if p then Some Pair_rank else Some HighCard
                 }
               }
             }
           }
         }
       }
     }
   }"

section \<open>One pair, in the words of the specification\<close>

text \<open>
  Section 4.2 of the specification: a one-pair hand has exactly one run of equal ranks of
  length 2 among the sorted positions, and no run of length 3 or more.  \<open>run_lengths\<close> gives
  the lengths of the maximal runs of equal neighbours, from left to right.
\<close>

fun run_lengths :: "int list \<Rightarrow> nat list" where
  "run_lengths [] = []"
| "run_lengths [x] = [1]"
| "run_lengths (x # y # ys) =
     (if x = y then (case run_lengths (y # ys) of [] \<Rightarrow> [] | n # ns \<Rightarrow> Suc n # ns)
      else 1 # run_lengths (y # ys))"

definition one_pair_spec :: "int list \<Rightarrow> bool" where
  "one_pair_spec rs \<longleftrightarrow>
     length (filter (\<lambda>n. n = 2) (run_lengths rs)) = 1 \<and> (\<forall>n \<in> set (run_lengths rs). n < 3)"

text \<open>
  The hands the claim excludes, by the number of cards of one rank: three or more cards of
  one rank (three of a kind, full house, four of a kind), or two different ranks with two
  cards or more each (two pairs, full house).
\<close>

definition has_three_of_a_kind :: "int list \<Rightarrow> bool" where
  "has_three_of_a_kind rs \<longleftrightarrow> (\<exists>r \<in> set rs. 3 \<le> count_list rs r)"

definition has_two_pairs :: "int list \<Rightarrow> bool" where
  "has_two_pairs rs \<longleftrightarrow>
     (\<exists>r \<in> set rs. \<exists>r' \<in> set rs. r \<noteq> r' \<and> 2 \<le> count_list rs r \<and> 2 \<le> count_list rs r')"

section \<open>The score of a pair, in the words of the specification\<close>

text \<open>
  Section 4.3 of the specification: weight the pair's rank highest, then the three remaining
  kickers in descending rank order.  The pair's rank is the rank that two cards of the hand
  have; the kickers are the other ranks, sorted and read from the highest.
\<close>

definition pair_rank_spec :: "int list \<Rightarrow> int" where
  "pair_rank_spec rs = hd (filter (\<lambda>r. count_list rs r = 2) rs)"

definition Pair_score_spec :: "int list \<Rightarrow> int" where
  "Pair_score_spec rs =
     (let p = pair_rank_spec rs;
          ks = rev (sort (filter (\<lambda>r. r \<noteq> p) rs))
      in 2 * 14 ^ 5 + p * 14 ^ 4 + ks ! 0 * 14 ^ 3 + ks ! 1 * 14 ^ 2 + ks ! 2 * 14)"

section \<open>Hands used as concrete inputs\<close>

text \<open>The constructor \<^verbatim>\<open>Card(CardRank rank, CardSuit suit)\<close>.\<close>

definition Card_of :: "CardRank \<Rightarrow> CardSuit \<Rightarrow> Card" where
  "Card_of rank suit = \<lparr>Suit = suit, Rank = rank\<rparr>"

text \<open>
  Hands are written as \<^verbatim>\<open>main\<close> writes them, as a list of cards.  The field \<open>HRank\<close> is
  uninitialised in the source and never read; the inputs below carry \<open>HighCard\<close> there.
\<close>

definition hand_of :: "Card list \<Rightarrow> Hand" where
  "hand_of cs = \<lparr>Cards = cs, HRank = HighCard\<rparr>"

text \<open>Rank-sorted hands of five cards, one or more for each category that is used below.\<close>

definition six_high_straight :: Hand where
  "six_high_straight = hand_of [Card_of Two Hearts, Card_of Three Clubs, Card_of Four Hearts,
     Card_of Five Hearts, Card_of Six Hearts]"

definition six_high_straight_flush :: Hand where
  "six_high_straight_flush = hand_of [Card_of Two Hearts, Card_of Three Hearts,
     Card_of Four Hearts, Card_of Five Hearts, Card_of Six Hearts]"

definition pair_of_twos :: Hand where
  "pair_of_twos = hand_of [Card_of Two Hearts, Card_of Two Clubs, Card_of Three Diamonds,
     Card_of Four Spades, Card_of Five Hearts]"

definition pair_of_fives :: Hand where
  "pair_of_fives = hand_of [Card_of Two Hearts, Card_of Five Clubs, Card_of Five Diamonds,
     Card_of Nine Spades, Card_of King Hearts]"

definition pair_of_nines :: Hand where
  "pair_of_nines = hand_of [Card_of Two Hearts, Card_of Five Clubs, Card_of Nine Diamonds,
     Card_of Nine Spades, Card_of King Hearts]"

definition pair_of_aces :: Hand where
  "pair_of_aces = hand_of [Card_of Two Hearts, Card_of Five Clubs, Card_of Nine Diamonds,
     Card_of Ace Spades, Card_of Ace Hearts]"

definition three_fives :: Hand where
  "three_fives = hand_of [Card_of Two Hearts, Card_of Five Clubs, Card_of Five Diamonds,
     Card_of Five Spades, Card_of King Hearts]"

definition set_of_aces :: Hand where
  "set_of_aces = hand_of [Card_of Two Diamonds, Card_of Three Spades, Card_of Ace Diamonds,
     Card_of Ace Clubs, Card_of Ace Spades]"

definition twos_full_of_threes :: Hand where
  "twos_full_of_threes = hand_of [Card_of Two Hearts, Card_of Two Clubs, Card_of Two Spades,
     Card_of Three Clubs, Card_of Three Spades]"

definition kings_with_two :: Hand where
  "kings_with_two = hand_of [Card_of Two Clubs, Card_of King Hearts, Card_of King Diamonds,
     Card_of King Spades, Card_of King Clubs]"

definition kings_with_ace :: Hand where
  "kings_with_ace = hand_of [Card_of King Hearts, Card_of King Diamonds,
     Card_of King Spades, Card_of King Clubs, Card_of Ace Clubs]"

definition threes_five_queens :: Hand where
  "threes_five_queens = hand_of [Card_of Three Hearts, Card_of Three Diamonds, Card_of Five Clubs,
     Card_of Queen Spades, Card_of Queen Clubs]"

definition two_threes_queens :: Hand where
  "two_threes_queens = hand_of [Card_of Two Spades, Card_of Three Hearts, Card_of Three Clubs,
     Card_of Queen Spades, Card_of Queen Clubs]"

definition twos_threes_king :: Hand where
  "twos_threes_king = hand_of [Card_of Two Clubs, Card_of Two Hearts, Card_of Three Diamonds,
     Card_of Three Spades, Card_of King Clubs]"

text \<open>
  \<^verbatim>\<open>hand1\<close> of \<^verbatim>\<open>main\<close>, in the order \<^verbatim>\<open>main\<close> writes it, and the same cards in another order.
\<close>

definition main_hand1 :: Hand where
  "main_hand1 = hand_of [Card_of King Hearts, Card_of King Diamonds, Card_of King Spades,
     Card_of Ten Clubs, Card_of Ten Hearts]"

definition main_hand1_shuffled :: Hand where
  "main_hand1_shuffled = hand_of [Card_of Ten Hearts, Card_of King Spades, Card_of King Hearts,
     Card_of Ten Clubs, Card_of King Diamonds]"

text \<open>Hands that do not have five cards.\<close>

definition six_cards :: Hand where
  "six_cards = hand_of [Card_of Two Clubs, Card_of Two Hearts, Card_of Three Diamonds,
     Card_of Four Spades, Card_of Five Clubs, Card_of Nine Clubs]"

definition four_cards :: Hand where
  "four_cards = hand_of [Card_of Two Clubs, Card_of Two Hearts, Card_of Three Diamonds,
     Card_of Three Spades]"

section \<open>The category is the branch that EvaluateHand takes\<close>

text \<open>
  On every hand, of any size, \<^verbatim>\<open>EvaluateHand\<close> is \<open>ResolveCategory\<close> followed by the score
  expression of the branch with that name.
\<close>

lemma EvaluateHand_by_category:
  "EvaluateHand h = do {
     c \<leftarrow> ResolveCategory h;
     case c of
       StraightFlush \<Rightarrow> kickers5 h 9
     | Quad \<Rightarrow> do { r3 \<leftarrow> rank_at h 3; r4 \<leftarrow> rank_at h 4; Some (8 * 14 ^ 5 + r3 * 14 ^ 4 + r4) }
     | FullHouse \<Rightarrow> do { r2 \<leftarrow> rank_at h 2; r4 \<leftarrow> rank_at h 4; Some (7 * 14 ^ 5 + r2 * 14 ^ 4 + - r4) }
     | Flush \<Rightarrow> kickers5 h 6
     | Straight \<Rightarrow> do { r4 \<leftarrow> rank_at h 4; Some (5 * 14 ^ 5 + r4) }
     | Set_rank \<Rightarrow> do { r2 \<leftarrow> rank_at h 2; r4 \<leftarrow> rank_at h 4; Some (4 * 14 ^ 5 + r2 * 14 ^ 4 + r4) }
     | TwoPair \<Rightarrow> EvaluateHand_TwoPair h
     | Pair_rank \<Rightarrow> EvaluateHand_Pair h
     | HighCard \<Rightarrow> kickers5 h 1
   }"
  unfolding EvaluateHand_def ResolveCategory_def
  by (cases "IsStraightFlush h"; cases "IsQuad h"; cases "IsFullHouse h"; cases "IsFlush h";
      cases "IsStraight h"; cases "IsSet h"; cases "IsTwoPair h"; cases "IsPair h"; simp)

section \<open>Hands of at least five cards\<close>

text \<open>
  On a hand of five cards or more every read is inside the vector, each loop runs to its end
  and each predicate has a closed form over the first five ranks and suits.
\<close>

lemma at5:
  assumes "Cards h = c0 # c1 # c2 # c3 # c4 # rest"
  shows "rank_at h 0 = Some (Rank c0)" "rank_at h 1 = Some (Rank c1)" "rank_at h 2 = Some (Rank c2)"
    "rank_at h 3 = Some (Rank c3)" "rank_at h 4 = Some (Rank c4)"
    "suit_at h 0 = Some (Suit c0)" "suit_at h 1 = Some (Suit c1)" "suit_at h 2 = Some (Suit c2)"
    "suit_at h 3 = Some (Suit c3)" "suit_at h 4 = Some (Suit c4)"
  using assms by (simp_all add: rank_at_def suit_at_def card_at_def)

lemma IsPair_loop_end: "IsPair_loop h 4 n = Some (n = 1)"
  by (subst IsPair_loop.simps) simp

lemma IsPair5:
  assumes "Cards h = c0 # c1 # c2 # c3 # c4 # rest"
  shows "IsPair h = Some (of_bool (Rank c0 = Rank c1) + of_bool (Rank c1 = Rank c2)
            + of_bool (Rank c2 = Rank c3) + of_bool (Rank c3 = Rank c4) = (1::int))"
proof -
  note at = at5 [OF assms]
  have 3: "IsPair_loop h 3 n = Some (n + of_bool (Rank c3 = Rank c4) = 1)" for n
    by (subst IsPair_loop.simps) (simp add: at IsPair_loop_end del: One_nat_def add_2_eq_Suc add_2_eq_Suc')
  have 2: "IsPair_loop h 2 n
      = Some (n + of_bool (Rank c2 = Rank c3) + of_bool (Rank c3 = Rank c4) = 1)" for n
    by (subst IsPair_loop.simps) (simp add: at 3 del: One_nat_def add_2_eq_Suc add_2_eq_Suc')
  have 1: "IsPair_loop h 1 n = Some (n + of_bool (Rank c1 = Rank c2)
      + of_bool (Rank c2 = Rank c3) + of_bool (Rank c3 = Rank c4) = 1)" for n
    by (subst IsPair_loop.simps) (simp add: at 2 del: One_nat_def add_2_eq_Suc add_2_eq_Suc')
  show ?thesis
    unfolding IsPair_def by (subst IsPair_loop.simps) (simp add: at 1 del: One_nat_def add_2_eq_Suc add_2_eq_Suc')
qed

lemma IsSet5:
  assumes "Cards h = c0 # c1 # c2 # c3 # c4 # rest"
  shows "IsSet h = Some (of_bool (Rank c0 = Rank c1 \<and> Rank c1 = Rank c2)
            + of_bool (Rank c1 = Rank c2 \<and> Rank c2 = Rank c3)
            + of_bool (Rank c2 = Rank c3 \<and> Rank c3 = Rank c4) = (1::int))"
proof -
  note at = at5 [OF assms]
  have 3: "IsSet_loop h 3 n = Some (n = 1)" for n
    by (subst IsSet_loop.simps) simp
  have 2: "IsSet_loop h 2 n
      = Some (n + of_bool (Rank c2 = Rank c3 \<and> Rank c3 = Rank c4) = 1)" for n
    by (subst IsSet_loop.simps) (simp add: at 3 del: One_nat_def add_2_eq_Suc add_2_eq_Suc')
  have 1: "IsSet_loop h 1 n = Some (n + of_bool (Rank c1 = Rank c2 \<and> Rank c2 = Rank c3)
      + of_bool (Rank c2 = Rank c3 \<and> Rank c3 = Rank c4) = 1)" for n
    by (subst IsSet_loop.simps) (simp add: at 2 del: One_nat_def add_2_eq_Suc add_2_eq_Suc')
  show ?thesis
    unfolding IsSet_def by (subst IsSet_loop.simps) (simp add: at 1 del: One_nat_def add_2_eq_Suc add_2_eq_Suc')
qed

lemma IsTwoPair5:
  assumes "Cards h = c0 # c1 # c2 # c3 # c4 # rest"
  shows "IsTwoPair h = Some ((Rank c0 = Rank c1 \<and> (Rank c2 = Rank c3 \<or> Rank c3 = Rank c4))
            \<or> (Rank c0 \<noteq> Rank c1 \<and> Rank c1 = Rank c2 \<and> Rank c3 = Rank c4))"
proof -
  note at = at5 [OF assms]
  have 5: "IsTwoPair_loop h 5 n = Some (n = 2)" for n
    by (subst IsTwoPair_loop.simps) simp
  have 4: "IsTwoPair_loop h 4 n = Some (n = 2)" for n
    by (subst IsTwoPair_loop.simps) simp
  have 3: "IsTwoPair_loop h 3 n = Some (n + of_bool (Rank c3 = Rank c4) = 2)" for n
    by (subst IsTwoPair_loop.simps) (simp add: at 4 5 del: One_nat_def add_2_eq_Suc add_2_eq_Suc')
  have 2: "IsTwoPair_loop h 2 n
      = Some (if Rank c2 = Rank c3 then n + 1 = 2 else n + of_bool (Rank c3 = Rank c4) = 2)" for n
    by (subst IsTwoPair_loop.simps) (simp add: at 3 4 del: One_nat_def add_2_eq_Suc add_2_eq_Suc')
  have 1: "IsTwoPair_loop h 1 n
      = Some (if Rank c1 = Rank c2 then n + 1 + of_bool (Rank c3 = Rank c4) = 2
              else if Rank c2 = Rank c3 then n + 1 = 2
              else n + of_bool (Rank c3 = Rank c4) = 2)" for n
    by (subst IsTwoPair_loop.simps) (simp add: at 2 3 del: One_nat_def add_2_eq_Suc add_2_eq_Suc')
  show ?thesis
    unfolding IsTwoPair_def by (subst IsTwoPair_loop.simps) (simp add: at 1 2 del: One_nat_def add_2_eq_Suc add_2_eq_Suc')
qed

lemma IsStraight5:
  assumes "Cards h = c0 # c1 # c2 # c3 # c4 # rest"
  shows "IsStraight h = Some (Rank c0 + 1 = Rank c1 \<and> Rank c1 + 1 = Rank c2
            \<and> Rank c2 + 1 = Rank c3 \<and> Rank c3 + 1 = Rank c4)"
proof -
  note at = at5 [OF assms]
  have 4: "IsStraight_loop h 4 = Some True"
    by (subst IsStraight_loop.simps) simp
  have 3: "IsStraight_loop h 3 = Some (Rank c3 + 1 = Rank c4)"
    by (subst IsStraight_loop.simps) (simp add: at 4 del: One_nat_def add_2_eq_Suc add_2_eq_Suc')
  have 2: "IsStraight_loop h 2 = Some (Rank c2 + 1 = Rank c3 \<and> Rank c3 + 1 = Rank c4)"
    by (subst IsStraight_loop.simps) (simp add: at 3 del: One_nat_def add_2_eq_Suc add_2_eq_Suc')
  have 1: "IsStraight_loop h 1
      = Some (Rank c1 + 1 = Rank c2 \<and> Rank c2 + 1 = Rank c3 \<and> Rank c3 + 1 = Rank c4)"
    by (subst IsStraight_loop.simps) (simp add: at 2 del: One_nat_def add_2_eq_Suc add_2_eq_Suc')
  show ?thesis
    unfolding IsStraight_def by (subst IsStraight_loop.simps) (simp add: at 1 del: One_nat_def add_2_eq_Suc add_2_eq_Suc')
qed

lemma IsFlush5:
  assumes "Cards h = c0 # c1 # c2 # c3 # c4 # rest"
  shows "IsFlush h = Some (Suit c0 = Suit c1 \<and> Suit c1 = Suit c2
            \<and> Suit c2 = Suit c3 \<and> Suit c3 = Suit c4)"
proof -
  note at = at5 [OF assms]
  have 4: "IsFlush_loop h 4 = Some True"
    by (subst IsFlush_loop.simps) simp
  have 3: "IsFlush_loop h 3 = Some (Suit c3 = Suit c4)"
    by (subst IsFlush_loop.simps) (simp add: at 4 del: One_nat_def add_2_eq_Suc add_2_eq_Suc')
  have 2: "IsFlush_loop h 2 = Some (Suit c2 = Suit c3 \<and> Suit c3 = Suit c4)"
    by (subst IsFlush_loop.simps) (simp add: at 3 del: One_nat_def add_2_eq_Suc add_2_eq_Suc')
  have 1: "IsFlush_loop h 1
      = Some (Suit c1 = Suit c2 \<and> Suit c2 = Suit c3 \<and> Suit c3 = Suit c4)"
    by (subst IsFlush_loop.simps) (simp add: at 2 del: One_nat_def add_2_eq_Suc add_2_eq_Suc')
  show ?thesis
    unfolding IsFlush_def by (subst IsFlush_loop.simps) (simp add: at 1 del: One_nat_def add_2_eq_Suc add_2_eq_Suc')
qed

lemma IsQuad5:
  assumes "Cards h = c0 # c1 # c2 # c3 # c4 # rest"
  shows "IsQuad h = Some (Rank c0 = Rank c3 \<or> Rank c1 = Rank c4)"
  unfolding IsQuad_def by (simp add: at5 [OF assms] del: One_nat_def)


lemma ResolveCategory_chain:
  assumes "IsStraight h = Some st" "IsFlush h = Some fl" "IsQuad h = Some q"
    "IsSet h = Some s" "IsTwoPair h = Some tp" "IsPair h = Some p"
  shows "ResolveCategory h = Some
     (if st \<and> fl then StraightFlush else if q then Quad else if s \<and> tp then FullHouse
      else if fl then Flush else if st then Straight else if s then Set_rank
      else if tp then TwoPair else if p then Pair_rank else HighCard)"
  by (simp add: ResolveCategory_def IsStraightFlush_def IsFullHouse_def assms)

lemma EvaluateHand_chain:
  assumes "IsStraight h = Some st" "IsFlush h = Some fl" "IsQuad h = Some q"
    "IsSet h = Some s" "IsTwoPair h = Some tp" "IsPair h = Some p"
  shows "EvaluateHand h =
     (if st \<and> fl then kickers5 h 9
      else if q then do { r3 \<leftarrow> rank_at h 3; r4 \<leftarrow> rank_at h 4; Some (8 * 14 ^ 5 + r3 * 14 ^ 4 + r4) }
      else if s \<and> tp then do { r2 \<leftarrow> rank_at h 2; r4 \<leftarrow> rank_at h 4; Some (7 * 14 ^ 5 + r2 * 14 ^ 4 + - r4) }
      else if fl then kickers5 h 6
      else if st then do { r4 \<leftarrow> rank_at h 4; Some (5 * 14 ^ 5 + r4) }
      else if s then do { r2 \<leftarrow> rank_at h 2; r4 \<leftarrow> rank_at h 4; Some (4 * 14 ^ 5 + r2 * 14 ^ 4 + r4) }
      else if tp then EvaluateHand_TwoPair h
      else if p then EvaluateHand_Pair h
      else kickers5 h 1)"
  by (simp add: EvaluateHand_def IsStraightFlush_def IsFullHouse_def assms)

lemma kickers5_5:
  assumes "Cards h = c0 # c1 # c2 # c3 # c4 # rest"
  shows "kickers5 h k = Some (k * 537824 + Rank c4 * 38416 + Rank c3 * 2744 + Rank c2 * 196
            + Rank c1 * 14 + Rank c0)"
  by (simp add: kickers5_def at5 [OF assms] del: One_nat_def)

lemma EvaluateHand_TwoPair5:
  assumes "Cards h = c0 # c1 # c2 # c3 # c4 # rest"
  shows "EvaluateHand_TwoPair h = Some
     (if Rank c0 \<noteq> Rank c1 then 1613472 + Rank c4 * 38416 + Rank c2 * 2744 + Rank c1
      else if Rank c1 \<noteq> Rank c2 then 1613472 + Rank c4 * 38416 + Rank c1 * 2744 + Rank c2
      else 1613472 + Rank c3 * 38416 + Rank c1 * 2744 + Rank c4)"
  by (simp add: EvaluateHand_TwoPair_def at5 [OF assms] del: One_nat_def)

lemma EvaluateHand_Pair5:
  assumes "Cards h = c0 # c1 # c2 # c3 # c4 # rest"
  shows "EvaluateHand_Pair h = Some
     (if Rank c0 = Rank c1
      then 1075648 + Rank c0 * 38416 + Rank c4 * 2744 + Rank c3 * 196 + Rank c2 * 14
      else if Rank c1 = Rank c2
      then 1075648 + Rank c1 * 38416 + Rank c4 * 2744 + Rank c3 * 196 + Rank c0 * 14
      else if Rank c2 = Rank c3
      then 1075648 + Rank c3 * 38416 + Rank c4 * 2744 + Rank c1 * 196 + Rank c0 * 14
      else 1075648 + Rank c3 * 38416 + Rank c2 * 2744 + Rank c1 * 196 + Rank c0 * 14)"
  by (simp add: EvaluateHand_Pair_def at5 [OF assms] del: One_nat_def)


lemmas preds5 = IsStraight5 IsFlush5 IsQuad5 IsSet5 IsTwoPair5 IsPair5


section \<open>The score of the straight, flush and high card branches\<close>

text \<open>
  On a rank-sorted hand of five cards that resolves to StraightFlush, Flush or HighCard the
  score is the category's number times \<open>14^5\<close> plus the five sorted ranks as base-14 digits,
  the highest card (position 4) with weight \<open>14^4\<close> down to the lowest card with weight 1.
\<close>

lemma five_kickers_score:
  assumes "Cards h = [c0, c1, c2, c3, c4]"
    and "sorted (map Rank (Cards h))"
    and "ResolveCategory h = Some cat"
    and "cat \<in> {StraightFlush, Flush, HighCard}"
  shows "EvaluateHand h = Some
     (HandRank_value cat * 14 ^ 5 + Rank c4 * 14 ^ 4 + Rank c3 * 14 ^ 3
        + Rank c2 * 14 ^ 2 + Rank c1 * 14 + Rank c0)"
proof -
  note cards = assms(1)
  obtain st fl q s tp p where preds: "IsStraight h = Some st" "IsFlush h = Some fl"
    "IsQuad h = Some q" "IsSet h = Some s" "IsTwoPair h = Some tp" "IsPair h = Some p"
    using preds5 [OF cards] by blast
  note ev = EvaluateHand_chain [OF preds]
  note rc = ResolveCategory_chain [OF preds]
  show ?thesis
    using assms(3,4) unfolding ev rc
    by (auto simp add: kickers5_5 [OF cards] at5 [OF cards] split: if_splits)
qed

text \<open>
  Claim C5 asks the same of a hand that resolves to Straight: \<open>5 * 14^5\<close> plus the five sorted
  ranks, the highest with weight \<open>14^4\<close>.  The code breaks it: the Straight branch (line 323)
  adds the rank of the highest card alone, with weight 1.  The straight 2, 3, 4, 5, 6 (not a
  flush) scores \<open>5 * 14^5 + 6\<close>, while the same ranks in one suit, through the straight flush
  branch, score \<open>9 * 14^5\<close> plus all five weighted ranks.
\<close>

theorem straight_top_card_only:
  "sorted (map Rank (Cards six_high_straight))
   \<and> ResolveCategory six_high_straight = Some Straight
   \<and> EvaluateHand six_high_straight = Some (5 * 14 ^ 5 + 6)
   \<and> EvaluateHand six_high_straight
       \<noteq> Some (HandRank_value Straight * 14 ^ 5 + Rank (Cards six_high_straight ! 4) * 14 ^ 4
             + Rank (Cards six_high_straight ! 3) * 14 ^ 3
             + Rank (Cards six_high_straight ! 2) * 14 ^ 2
             + Rank (Cards six_high_straight ! 1) * 14
             + Rank (Cards six_high_straight ! 0))
   \<and> sorted (map Rank (Cards six_high_straight_flush))
   \<and> ResolveCategory six_high_straight_flush = Some StraightFlush
   \<and> EvaluateHand six_high_straight_flush
       = Some (9 * 14 ^ 5 + 6 * 14 ^ 4 + 5 * 14 ^ 3 + 4 * 14 ^ 2 + 3 * 14 + 2)"
  by code_simp

section \<open>IsPair\<close>

lemma three_of_a_kind_adjacent:
  assumes "sorted [r0, r1, r2, r3, r4 :: int]"
    and "3 \<le> count_list [r0, r1, r2, r3, r4] r"
  shows "(r0 = r1 \<and> r1 = r2) \<or> (r1 = r2 \<and> r2 = r3) \<or> (r2 = r3 \<and> r3 = r4)"
  using assms by (auto split: if_splits)

lemma two_pairs_adjacent:
  assumes "sorted [r0, r1, r2, r3, r4 :: int]"
    and "2 \<le> count_list [r0, r1, r2, r3, r4] r" "2 \<le> count_list [r0, r1, r2, r3, r4] r'" "r \<noteq> r'"
  shows "(r0 = r1 \<and> r2 = r3) \<or> (r0 = r1 \<and> r3 = r4) \<or> (r1 = r2 \<and> r3 = r4)"
  using assms by (auto split: if_splits)

text \<open>
  Claim C7.  On a rank-sorted hand of five cards \<open>IsPair\<close> returns true exactly when the
  hand has one run of two equal ranks and no longer run; in particular it returns false on
  every hand with three or more cards of one rank (three of a kind, four of a kind, full
  house) and on every hand with two pairs.
\<close>

theorem IsPair_exactly_one_pair:
  assumes "Cards h = [c0, c1, c2, c3, c4]"
    and "sorted (map Rank (Cards h))"
  shows "IsPair h = Some (one_pair_spec (map Rank (Cards h)))
    \<and> (has_three_of_a_kind (map Rank (Cards h)) \<or> has_two_pairs (map Rank (Cards h))
         \<longrightarrow> IsPair h = Some False)"
proof (intro conjI impI)
  show "IsPair h = Some (one_pair_spec (map Rank (Cards h)))"
    unfolding IsPair5 [OF assms(1)] assms(1)
    by (auto simp add: one_pair_spec_def)
next
  let ?rs = "[Rank c0, Rank c1, Rank c2, Rank c3, Rank c4]"
  have rs: "map Rank (Cards h) = ?rs"
    using assms(1) by simp
  have sorted: "sorted ?rs"
    using assms(2) unfolding rs .
  assume "has_three_of_a_kind (map Rank (Cards h)) \<or> has_two_pairs (map Rank (Cards h))"
  then consider r where "3 \<le> count_list ?rs r"
    | r r' where "2 \<le> count_list ?rs r" "2 \<le> count_list ?rs r'" "r \<noteq> r'"
    unfolding has_three_of_a_kind_def has_two_pairs_def rs by blast
  then have "(Rank c0 = Rank c1 \<and> Rank c1 = Rank c2) \<or> (Rank c1 = Rank c2 \<and> Rank c2 = Rank c3)
      \<or> (Rank c2 = Rank c3 \<and> Rank c3 = Rank c4) \<or> (Rank c0 = Rank c1 \<and> Rank c2 = Rank c3)
      \<or> (Rank c0 = Rank c1 \<and> Rank c3 = Rank c4) \<or> (Rank c1 = Rank c2 \<and> Rank c3 = Rank c4)"
  proof cases
    case 1
    from three_of_a_kind_adjacent [OF sorted 1] show ?thesis by blast
  next
    case 2
    from two_pairs_adjacent [OF sorted 2] show ?thesis by blast
  qed
  then show "IsPair h = Some False"
    unfolding IsPair5 [OF assms(1)] by auto
qed

theorem IsPair_exactly_one_pair_witness:
  "sorted (map Rank (Cards pair_of_fives)) \<and> IsPair pair_of_fives = Some True
   \<and> sorted (map Rank (Cards three_fives)) \<and> has_three_of_a_kind (map Rank (Cards three_fives))
   \<and> IsPair three_fives = Some False"
proof -
  have c1: "Cards pair_of_fives = [Card_of Two Hearts, Card_of Five Clubs, Card_of Five Diamonds,
     Card_of Nine Spades, Card_of King Hearts]"
    by (simp add: pair_of_fives_def hand_of_def)
  have s1: "sorted (map Rank (Cards pair_of_fives))"
    by code_simp
  have p1: "one_pair_spec (map Rank (Cards pair_of_fives))"
    by code_simp
  have c2: "Cards three_fives = [Card_of Two Hearts, Card_of Five Clubs, Card_of Five Diamonds,
     Card_of Five Spades, Card_of King Hearts]"
    by (simp add: three_fives_def hand_of_def)
  have s2: "sorted (map Rank (Cards three_fives))"
    by code_simp
  have t2: "has_three_of_a_kind (map Rank (Cards three_fives))"
    by code_simp
  have n2: "\<not> one_pair_spec (map Rank (Cards three_fives))"
    by code_simp
  from IsPair_exactly_one_pair [OF c1 s1] IsPair_exactly_one_pair [OF c2 s2] s1 p1 s2 t2 n2
  show ?thesis
    by simp
qed

section \<open>The score of the pair branch\<close>

lemma Pair_score_spec_01:
  assumes "r0 < r2" "r2 < r3" "r3 < (r4::int)"
  shows "Pair_score_spec [r0, r0, r2, r3, r4]
    = 2 * 14 ^ 5 + r0 * 14 ^ 4 + r4 * 14 ^ 3 + r3 * 14 ^ 2 + r2 * 14"
  using assms by (simp add: Pair_score_spec_def pair_rank_spec_def)

lemma Pair_score_spec_12:
  assumes "r0 < r1" "r1 < r3" "r3 < (r4::int)"
  shows "Pair_score_spec [r0, r1, r1, r3, r4]
    = 2 * 14 ^ 5 + r1 * 14 ^ 4 + r4 * 14 ^ 3 + r3 * 14 ^ 2 + r0 * 14"
  using assms by (simp add: Pair_score_spec_def pair_rank_spec_def)

lemma Pair_score_spec_23:
  assumes "r0 < r1" "r1 < r2" "r2 < (r4::int)"
  shows "Pair_score_spec [r0, r1, r2, r2, r4]
    = 2 * 14 ^ 5 + r2 * 14 ^ 4 + r4 * 14 ^ 3 + r1 * 14 ^ 2 + r0 * 14"
  using assms by (simp add: Pair_score_spec_def pair_rank_spec_def)

lemma Pair_score_spec_34:
  assumes "r0 < r1" "r1 < r2" "r2 < (r3::int)"
  shows "Pair_score_spec [r0, r1, r2, r3, r3]
    = 2 * 14 ^ 5 + r3 * 14 ^ 4 + r2 * 14 ^ 3 + r1 * 14 ^ 2 + r0 * 14"
  using assms by (simp add: Pair_score_spec_def pair_rank_spec_def)

lemma Resolve_Pair_rank:
  assumes "Cards h = c0 # c1 # c2 # c3 # c4 # rest"
    and "ResolveCategory h = Some Pair_rank"
  shows "EvaluateHand h = EvaluateHand_Pair h" and "IsPair h = Some True"
proof -
  obtain st fl q s tp p where preds: "IsStraight h = Some st" "IsFlush h = Some fl"
    "IsQuad h = Some q" "IsSet h = Some s" "IsTwoPair h = Some tp" "IsPair h = Some p"
    using preds5 [OF assms(1)] by blast
  from assms(2) have "\<not> (st \<and> fl) \<and> \<not> q \<and> \<not> (s \<and> tp) \<and> \<not> fl \<and> \<not> st \<and> \<not> s \<and> \<not> tp \<and> p"
    unfolding ResolveCategory_chain [OF preds] by (auto split: if_splits)
  then show "EvaluateHand h = EvaluateHand_Pair h" and "IsPair h = Some True"
    unfolding EvaluateHand_chain [OF preds] using preds(6) by auto
qed

text \<open>
  Claim C6.  On a rank-sorted hand of five cards that resolves to Pair, wherever the pair
  sits (positions 0-1, 1-2, 2-3 or 3-4), the score is \<open>2 * 14^5\<close> plus the pair's rank times
  \<open>14^4\<close> plus the three other ranks, in descending order, times \<open>14^3\<close>, \<open>14^2\<close> and \<open>14\<close>.
\<close>

theorem Pair_score:
  assumes "Cards h = [c0, c1, c2, c3, c4]"
    and "sorted (map Rank (Cards h))"
    and "ResolveCategory h = Some Pair_rank"
  shows "EvaluateHand h = Some (Pair_score_spec (map Rank (Cards h)))"
proof -
  have rs: "map Rank (Cards h) = [Rank c0, Rank c1, Rank c2, Rank c3, Rank c4]"
    using assms(1) by simp
  have le: "Rank c0 \<le> Rank c1" "Rank c1 \<le> Rank c2" "Rank c2 \<le> Rank c3" "Rank c3 \<le> Rank c4"
    using assms(2) unfolding rs by simp_all
  have "of_bool (Rank c0 = Rank c1) + of_bool (Rank c1 = Rank c2)
      + of_bool (Rank c2 = Rank c3) + of_bool (Rank c3 = Rank c4) = (1::int)"
    using Resolve_Pair_rank(2) [OF assms(1,3)] unfolding IsPair5 [OF assms(1)] by simp
  then consider
      (p01) "Rank c0 = Rank c1" "Rank c1 < Rank c2" "Rank c2 < Rank c3" "Rank c3 < Rank c4"
    | (p12) "Rank c0 < Rank c1" "Rank c1 = Rank c2" "Rank c2 < Rank c3" "Rank c3 < Rank c4"
    | (p23) "Rank c0 < Rank c1" "Rank c1 < Rank c2" "Rank c2 = Rank c3" "Rank c3 < Rank c4"
    | (p34) "Rank c0 < Rank c1" "Rank c1 < Rank c2" "Rank c2 < Rank c3" "Rank c3 = Rank c4"
    using le by (auto simp add: of_bool_def split: if_splits)
  then have "EvaluateHand_Pair h = Some (Pair_score_spec (map Rank (Cards h)))"
  proof cases
    case p01
    then show ?thesis
      unfolding EvaluateHand_Pair5 [OF assms(1)] rs
      using Pair_score_spec_01 [of "Rank c1" "Rank c2" "Rank c3" "Rank c4"] by simp
  next
    case p12
    then show ?thesis
      unfolding EvaluateHand_Pair5 [OF assms(1)] rs
      using Pair_score_spec_12 [of "Rank c0" "Rank c2" "Rank c3" "Rank c4"] by simp
  next
    case p23
    then show ?thesis
      unfolding EvaluateHand_Pair5 [OF assms(1)] rs
      using Pair_score_spec_23 [of "Rank c0" "Rank c1" "Rank c3" "Rank c4"] by simp
  next
    case p34
    then show ?thesis
      unfolding EvaluateHand_Pair5 [OF assms(1)] rs
      using Pair_score_spec_34 [of "Rank c0" "Rank c1" "Rank c2" "Rank c4"] by simp
  qed
  then show ?thesis
    using Resolve_Pair_rank(1) [OF assms(1,3)] by simp
qed

theorem Pair_score_witness:
  "ResolveCategory pair_of_twos = Some Pair_rank
   \<and> EvaluateHand pair_of_twos = Some (2 * 14 ^ 5 + 2 * 14 ^ 4 + 5 * 14 ^ 3 + 4 * 14 ^ 2 + 3 * 14)
   \<and> ResolveCategory pair_of_fives = Some Pair_rank
   \<and> EvaluateHand pair_of_fives = Some (2 * 14 ^ 5 + 5 * 14 ^ 4 + 13 * 14 ^ 3 + 9 * 14 ^ 2 + 2 * 14)
   \<and> ResolveCategory pair_of_nines = Some Pair_rank
   \<and> EvaluateHand pair_of_nines = Some (2 * 14 ^ 5 + 9 * 14 ^ 4 + 13 * 14 ^ 3 + 5 * 14 ^ 2 + 2 * 14)
   \<and> ResolveCategory pair_of_aces = Some Pair_rank
   \<and> EvaluateHand pair_of_aces = Some (2 * 14 ^ 5 + 14 * 14 ^ 4 + 9 * 14 ^ 3 + 5 * 14 ^ 2 + 2 * 14)"
proof -
  have c1: "Cards pair_of_twos = [Card_of Two Hearts, Card_of Two Clubs, Card_of Three Diamonds,
     Card_of Four Spades, Card_of Five Hearts]"
    by (simp add: pair_of_twos_def hand_of_def)
  have s1: "sorted (map Rank (Cards pair_of_twos))" by code_simp
  have r1: "ResolveCategory pair_of_twos = Some Pair_rank" by code_simp
  have v1: "Pair_score_spec (map Rank (Cards pair_of_twos))
      = 2 * 14 ^ 5 + 2 * 14 ^ 4 + 5 * 14 ^ 3 + 4 * 14 ^ 2 + 3 * 14" by code_simp
  have c2: "Cards pair_of_fives = [Card_of Two Hearts, Card_of Five Clubs, Card_of Five Diamonds,
     Card_of Nine Spades, Card_of King Hearts]"
    by (simp add: pair_of_fives_def hand_of_def)
  have s2: "sorted (map Rank (Cards pair_of_fives))" by code_simp
  have r2: "ResolveCategory pair_of_fives = Some Pair_rank" by code_simp
  have v2: "Pair_score_spec (map Rank (Cards pair_of_fives))
      = 2 * 14 ^ 5 + 5 * 14 ^ 4 + 13 * 14 ^ 3 + 9 * 14 ^ 2 + 2 * 14" by code_simp
  have c3: "Cards pair_of_nines = [Card_of Two Hearts, Card_of Five Clubs, Card_of Nine Diamonds,
     Card_of Nine Spades, Card_of King Hearts]"
    by (simp add: pair_of_nines_def hand_of_def)
  have s3: "sorted (map Rank (Cards pair_of_nines))" by code_simp
  have r3: "ResolveCategory pair_of_nines = Some Pair_rank" by code_simp
  have v3: "Pair_score_spec (map Rank (Cards pair_of_nines))
      = 2 * 14 ^ 5 + 9 * 14 ^ 4 + 13 * 14 ^ 3 + 5 * 14 ^ 2 + 2 * 14" by code_simp
  have c4: "Cards pair_of_aces = [Card_of Two Hearts, Card_of Five Clubs, Card_of Nine Diamonds,
     Card_of Ace Spades, Card_of Ace Hearts]"
    by (simp add: pair_of_aces_def hand_of_def)
  have s4: "sorted (map Rank (Cards pair_of_aces))" by code_simp
  have r4: "ResolveCategory pair_of_aces = Some Pair_rank" by code_simp
  have v4: "Pair_score_spec (map Rank (Cards pair_of_aces))
      = 2 * 14 ^ 5 + 14 * 14 ^ 4 + 9 * 14 ^ 3 + 5 * 14 ^ 2 + 2 * 14" by code_simp
  from Pair_score [OF c1 s1 r1] Pair_score [OF c2 s2 r2] Pair_score [OF c3 s3 r3]
    Pair_score [OF c4 s4 r4] r1 r2 r3 r4
  show ?thesis
    unfolding v1 v2 v3 v4 by simp
qed

section \<open>Hands that do not have five cards\<close>

text \<open>
  A run of \<^verbatim>\<open>IsStraight\<close> that returns true has read position 4; so on a hand of fewer than
  five cards \<^verbatim>\<open>IsStraightFlush\<close> is false or has left the vector, and \<^verbatim>\<open>IsQuad\<close>, next in the
  chain, reads position 3 and then position 4.
\<close>

lemma IsStraight_loop_reads_4:
  "IsStraight_loop h i = Some True \<Longrightarrow> i < 4 \<Longrightarrow> rank_at h 4 \<noteq> None"
proof (induction h i rule: IsStraight_loop.induct)
  case (1 h i)
  from "1.prems" obtain a b where ab: "rank_at h i = Some a" "rank_at h (i + 1) = Some b"
    and eq: "a + 1 = b" and rest: "IsStraight_loop h (i + 1) = Some True"
    by (subst (asm) IsStraight_loop.simps) (auto split: if_splits bind_splits)
  show ?case
  proof (cases "i + 1 < 4")
    case True
    with "1.IH" [OF "1.prems"(2) ab] eq rest show ?thesis by simp
  next
    case False
    with "1.prems"(2) have "i + 1 = 4" by simp
    with ab(2) show ?thesis by simp
  qed
qed

lemma EvaluateHand_short:
  assumes "length (Cards h) < 5"
  shows "EvaluateHand h = None"
proof -
  have r4: "rank_at h 4 = None"
    using assms by (simp add: rank_at_def card_at_def)
  have st: "IsStraight h \<noteq> Some True"
    using IsStraight_loop_reads_4 [of h 0] r4 by (auto simp add: IsStraight_def)
  have sf: "IsStraightFlush h = None \<or> IsStraightFlush h = Some False"
    using st by (cases "IsStraight h") (auto simp add: IsStraightFlush_def)
  have q: "IsQuad h = None \<or> IsQuad h = Some True"
    using r4 by (auto simp add: IsQuad_def split: bind_splits)
  from sf show ?thesis
  proof
    assume "IsStraightFlush h = None"
    then show ?thesis
      by (simp add: EvaluateHand_def)
  next
    assume sf: "IsStraightFlush h = Some False"
    from q show ?thesis
    proof
      assume "IsQuad h = None"
      with sf show ?thesis
        by (simp add: EvaluateHand_def)
    next
      assume "IsQuad h = Some True"
      with sf r4 show ?thesis
        by (simp add: EvaluateHand_def)
    qed
  qed
qed

lemma at_least_five:
  "5 \<le> length xs \<Longrightarrow> \<exists>c0 c1 c2 c3 c4 rest. xs = c0 # c1 # c2 # c3 # c4 # rest"
  by (auto simp add: eval_nat_numeral Suc_le_length_iff)

lemma EvaluateHand_first_five:
  assumes cards: "Cards h = c0 # c1 # c2 # c3 # c4 # rest"
    and cards': "Cards h' = [c0, c1, c2, c3, c4]"
  shows "EvaluateHand h = EvaluateHand h'" and "ResolveCategory h = ResolveCategory h'"
    and "\<exists>score. EvaluateHand h = Some score"
proof -
  obtain st fl q s tp p where preds: "IsStraight h = Some st" "IsFlush h = Some fl"
    "IsQuad h = Some q" "IsSet h = Some s" "IsTwoPair h = Some tp" "IsPair h = Some p"
    using preds5 [OF cards] by blast
  have same: "IsStraight h' = IsStraight h" "IsFlush h' = IsFlush h" "IsQuad h' = IsQuad h"
    "IsSet h' = IsSet h" "IsTwoPair h' = IsTwoPair h" "IsPair h' = IsPair h"
    unfolding preds5 [OF cards] preds5 [OF cards'] by (rule refl)+
  note preds' = preds [folded same]
  have branches: "kickers5 h' k = kickers5 h k" "EvaluateHand_TwoPair h' = EvaluateHand_TwoPair h"
    "EvaluateHand_Pair h' = EvaluateHand_Pair h" "rank_at h' 2 = rank_at h 2"
    "rank_at h' 3 = rank_at h 3" "rank_at h' 4 = rank_at h 4" for k
    unfolding kickers5_5 [OF cards] kickers5_5 [OF cards'] EvaluateHand_TwoPair5 [OF cards]
      EvaluateHand_TwoPair5 [OF cards'] EvaluateHand_Pair5 [OF cards] EvaluateHand_Pair5 [OF cards']
      at5 [OF cards] at5 [OF cards'] by (rule refl)+
  show "EvaluateHand h = EvaluateHand h'"
    unfolding EvaluateHand_chain [OF preds] EvaluateHand_chain [OF preds'] branches ..
  show "ResolveCategory h = ResolveCategory h'"
    unfolding ResolveCategory_chain [OF preds] ResolveCategory_chain [OF preds'] ..
  show "\<exists>score. EvaluateHand h = Some score"
    unfolding EvaluateHand_chain [OF preds] kickers5_5 [OF cards] EvaluateHand_TwoPair5 [OF cards]
        EvaluateHand_Pair5 [OF cards] at5 [OF cards]
    by simp
qed

text \<open>
  Claim C9, as amended.  \<^verbatim>\<open>EvaluateHand\<close> has no check of the size of the hand and no error
  of its own.  On a hand of five cards or more it returns a score, the score of the first five
  cards; on a hand of fewer than five cards every run reads \<^verbatim>\<open>Cards\<close> past its end.
\<close>

theorem EvaluateHand_no_size_check:
  "(length (Cards h) < 5 \<longrightarrow> EvaluateHand h = None)
   \<and> (5 \<le> length (Cards h) \<longrightarrow>
        (\<exists>score. EvaluateHand h = Some score)
        \<and> EvaluateHand h = EvaluateHand (h\<lparr>Cards := take 5 (Cards h)\<rparr>))"
proof (intro conjI impI)
  assume "length (Cards h) < 5"
  then show "EvaluateHand h = None"
    by (rule EvaluateHand_short)
next
  assume len: "5 \<le> length (Cards h)"
  then obtain c0 c1 c2 c3 c4 rest where cards: "Cards h = c0 # c1 # c2 # c3 # c4 # rest"
    using at_least_five by blast
  have cards': "Cards (h\<lparr>Cards := take 5 (Cards h)\<rparr>) = [c0, c1, c2, c3, c4]"
    using cards by simp
  from EvaluateHand_first_five [OF cards cards']
  show "\<exists>score. EvaluateHand h = Some score"
    and "EvaluateHand h = EvaluateHand (h\<lparr>Cards := take 5 (Cards h)\<rparr>)"
    by simp_all
qed

text \<open>
  A hand of six cards is scored: the claim as the specification words it asks for an error.
\<close>

theorem six_cards_scored_counterexample:
  "length (Cards six_cards) \<noteq> 5 \<and> EvaluateHand six_cards = Some 1167026"
  by code_simp

theorem EvaluateHand_no_size_check_witness:
  "length (Cards four_cards) < 5 \<and> EvaluateHand four_cards = None
   \<and> 5 \<le> length (Cards six_cards)
   \<and> EvaluateHand six_cards = EvaluateHand (six_cards\<lparr>Cards := take 5 (Cards six_cards)\<rparr>)
   \<and> EvaluateHand six_cards = Some 1167026"
proof -
  have l4: "length (Cards four_cards) < 5"
    by (simp add: four_cards_def hand_of_def)
  have l6: "5 \<le> length (Cards six_cards)"
    by (simp add: six_cards_def hand_of_def)
  have v6: "EvaluateHand six_cards = Some 1167026"
    by code_simp
  from EvaluateHand_no_size_check [of four_cards] EvaluateHand_no_size_check [of six_cards] l4 l6 v6
  show ?thesis
    by simp
qed

section \<open>SortHand sorts\<close>

text \<open>
  One run of the inner loop from position \<open>length pre - 1\<close>, followed by the store of the key:
  the cards before the key's slot are split in two, the key lands between the parts, every
  card that was moved is higher than the key and the card left of the key is not.
\<close>

lemma SortHand_shift_insert:
  "\<exists>p1 p2. pre = p1 @ p2
     \<and> (case SortHand_shift (pre @ y # post) key (int (length pre) - 1) of
          (cs', j) \<Rightarrow> cs'[nat (j + 1) := key]) = p1 @ key # p2 @ post
     \<and> (\<forall>c \<in> set p2. Rank key < Rank c)
     \<and> (p1 \<noteq> [] \<longrightarrow> Rank (last p1) \<le> Rank key)"
proof (induction pre arbitrary: y post rule: rev_induct)
  case Nil
  show ?case
    by (subst SortHand_shift.simps) simp
next
  case (snoc x xs)
  show ?case
  proof (cases "Rank key < Rank x")
    case True
    from snoc.IH [of x "x # post"] obtain p1 p2 where split: "xs = p1 @ p2"
      and res: "(case SortHand_shift (xs @ x # x # post) key (int (length xs) - 1) of
          (cs', j) \<Rightarrow> cs'[nat (j + 1) := key]) = p1 @ key # p2 @ x # post"
      and gt: "\<forall>c \<in> set p2. Rank key < Rank c"
      and le: "p1 \<noteq> [] \<longrightarrow> Rank (last p1) \<le> Rank key"
      by blast
    have upd: "(xs @ x # y # post)[Suc (length xs) := x] = xs @ x # x # post"
      by (simp add: list_update_append)
    have step: "SortHand_shift ((xs @ [x]) @ y # post) key (int (length (xs @ [x])) - 1)
        = SortHand_shift (xs @ x # x # post) key (int (length xs) - 1)"
      using True by (subst SortHand_shift.simps) (simp add: nth_append nat_add_distrib upd)
    show ?thesis
      unfolding step
      by (rule exI [of _ p1], rule exI [of _ "p2 @ [x]"]) (use split res gt le True in simp)
  next
    case False
    have stop: "SortHand_shift ((xs @ [x]) @ y # post) key (int (length (xs @ [x])) - 1)
        = ((xs @ [x]) @ y # post, int (length xs))"
      using False by (subst SortHand_shift.simps) (simp add: nth_append)
    show ?thesis
      unfolding stop
      by (rule exI [of _ "xs @ [x]"], rule exI [of _ "[]"])
        (use False in \<open>simp add: list_update_append nat_add_distrib\<close>)
  qed
qed

lemma SortHand_step_insert:
  assumes "i < length cs"
  shows "\<exists>p1 p2. take i cs = p1 @ p2
     \<and> SortHand_step cs i = p1 @ cs ! i # p2 @ drop (Suc i) cs
     \<and> (\<forall>c \<in> set p2. Rank (cs ! i) < Rank c)
     \<and> (p1 \<noteq> [] \<longrightarrow> Rank (last p1) \<le> Rank (cs ! i))"
proof -
  have cs: "take i cs @ cs ! i # drop (Suc i) cs = cs"
    using assms by (simp add: id_take_nth_drop [symmetric])
  have len: "int (length (take i cs)) - 1 = int i - 1"
    using assms by simp
  from SortHand_shift_insert [where pre = "take i cs" and y = "cs ! i"
      and post = "drop (Suc i) cs" and key = "cs ! i"]
  show ?thesis
    unfolding cs len SortHand_step_def Let_def by simp
qed

lemma mset_SortHand_step:
  assumes "i < length cs"
  shows "mset (SortHand_step cs i) = mset cs"
proof -
  from SortHand_step_insert [OF assms] obtain p1 p2 where split: "take i cs = p1 @ p2"
    and res: "SortHand_step cs i = p1 @ cs ! i # p2 @ drop (Suc i) cs"
    by blast
  have "mset cs = mset (take i cs @ cs ! i # drop (Suc i) cs)"
    using assms by (simp add: id_take_nth_drop [symmetric])
  then show ?thesis
    unfolding res split by simp
qed

lemma sorted_SortHand_step:
  assumes "i < length cs" and "sorted (map Rank (take i cs))"
  shows "sorted (map Rank (take (Suc i) (SortHand_step cs i)))"
proof -
  from SortHand_step_insert [OF assms(1)] obtain p1 p2 where split: "take i cs = p1 @ p2"
    and res: "SortHand_step cs i = p1 @ cs ! i # p2 @ drop (Suc i) cs"
    and gt: "\<forall>c \<in> set p2. Rank (cs ! i) < Rank c"
    and le: "p1 \<noteq> [] \<longrightarrow> Rank (last p1) \<le> Rank (cs ! i)"
    by blast
  have "length (p1 @ p2) = i"
    using assms(1) split [symmetric] by simp
  then have tk: "take (Suc i) (SortHand_step cs i) = p1 @ cs ! i # p2"
    unfolding res by auto
  from assms(2) have s1: "sorted (map Rank p1)" and s2: "sorted (map Rank p2)"
    and s12: "\<forall>c \<in> set p1. \<forall>d \<in> set p2. Rank c \<le> Rank d"
    unfolding split by (simp_all add: sorted_append)
  have "Rank c \<le> Rank (cs ! i)" if "c \<in> set p1" for c
  proof -
    from that have ne: "p1 \<noteq> []" by auto
    then have "p1 = butlast p1 @ [last p1]" by simp
    then have "sorted (map Rank (butlast p1 @ [last p1]))" using s1 by simp
    then have "\<forall>d \<in> set (butlast p1). Rank d \<le> Rank (last p1)"
      by (simp add: sorted_append)
    moreover from that ne have "c \<in> set (butlast p1) \<or> c = last p1"
      by (metis Un_iff append_butlast_last_id empty_iff insert_iff list.set(1) list.simps(15) set_append)
    ultimately have "Rank c \<le> Rank (last p1)" by auto
    with le ne show ?thesis by simp
  qed
  with s1 s2 s12 gt show ?thesis
    unfolding tk by (auto simp add: sorted_append less_imp_le)
qed

lemma SortHand_loop_sorts:
  "sorted (map Rank (take i cs)) \<Longrightarrow>
     sorted (map Rank (SortHand_loop cs i)) \<and> mset (SortHand_loop cs i) = mset cs"
proof (induction cs i rule: SortHand_loop.induct)
  case (1 cs i)
  show ?case
  proof (cases "i < length cs")
    case True
    from "1.IH" [OF True] sorted_SortHand_step [OF True "1.prems"] mset_SortHand_step [OF True]
    show ?thesis
      by (subst (1 2) SortHand_loop.simps) (simp add: True)
  next
    case False
    with "1.prems" show ?thesis
      by (subst (1 2) SortHand_loop.simps) simp
  qed
qed

lemma SortHand_sorts:
  "sorted (map Rank (Cards (SortHand h)))" "mset (Cards (SortHand h)) = mset (Cards h)"
proof -
  have "sorted (map Rank (take 1 (Cards h)))"
    by (cases "Cards h") simp_all
  from SortHand_loop_sorts [OF this]
  show "sorted (map Rank (Cards (SortHand h)))" "mset (Cards (SortHand h)) = mset (Cards h)"
    by (simp_all add: SortHand_def)
qed

section \<open>The input order does not matter\<close>

lemma exactly_five:
  "length xs = 5 \<Longrightarrow> \<exists>c0 c1 c2 c3 c4. xs = [c0, c1, c2, c3, c4]"
  by (auto simp add: eval_nat_numeral length_Suc_conv)

lemma EvaluateHand_ranks_flush:
  assumes cards: "Cards h = [a0, a1, a2, a3, a4]"
    and cards': "Cards h' = [b0, b1, b2, b3, b4]"
    and ranks: "map Rank (Cards h) = map Rank (Cards h')"
    and flush: "IsFlush h = IsFlush h'"
  shows "EvaluateHand h = EvaluateHand h'" and "ResolveCategory h = ResolveCategory h'"
proof -
  have r: "Rank a0 = Rank b0" "Rank a1 = Rank b1" "Rank a2 = Rank b2" "Rank a3 = Rank b3"
    "Rank a4 = Rank b4"
    using ranks unfolding cards cards' by simp_all
  obtain st fl q s tp p where preds: "IsStraight h' = Some st" "IsFlush h' = Some fl"
    "IsQuad h' = Some q" "IsSet h' = Some s" "IsTwoPair h' = Some tp" "IsPair h' = Some p"
    using preds5 [OF cards'] by blast
  have same: "IsStraight h = IsStraight h'" "IsQuad h = IsQuad h'"
    "IsSet h = IsSet h'" "IsTwoPair h = IsTwoPair h'" "IsPair h = IsPair h'"
    unfolding IsStraight5 [OF cards] IsStraight5 [OF cards'] IsQuad5 [OF cards] IsQuad5 [OF cards']
      IsSet5 [OF cards] IsSet5 [OF cards'] IsTwoPair5 [OF cards] IsTwoPair5 [OF cards']
      IsPair5 [OF cards] IsPair5 [OF cards'] r by (rule refl)+
  have preds0: "IsStraight h = Some st" "IsFlush h = Some fl"
    "IsQuad h = Some q" "IsSet h = Some s" "IsTwoPair h = Some tp" "IsPair h = Some p"
    unfolding same flush by (rule preds)+
  have branches: "kickers5 h k = kickers5 h' k" "EvaluateHand_TwoPair h = EvaluateHand_TwoPair h'"
    "EvaluateHand_Pair h = EvaluateHand_Pair h'" "rank_at h 2 = rank_at h' 2"
    "rank_at h 3 = rank_at h' 3" "rank_at h 4 = rank_at h' 4" for k
    unfolding kickers5_5 [OF cards] kickers5_5 [OF cards'] EvaluateHand_TwoPair5 [OF cards]
      EvaluateHand_TwoPair5 [OF cards'] EvaluateHand_Pair5 [OF cards] EvaluateHand_Pair5 [OF cards']
      at5 [OF cards] at5 [OF cards'] r by (rule refl)+
  show "EvaluateHand h = EvaluateHand h'"
    unfolding EvaluateHand_chain [OF preds] EvaluateHand_chain [OF preds0] branches ..
  show "ResolveCategory h = ResolveCategory h'"
    unfolding ResolveCategory_chain [OF preds] ResolveCategory_chain [OF preds0] ..
qed

lemma IsFlush_set:
  assumes "Cards h = [c0, c1, c2, c3, c4]"
  shows "IsFlush h = Some (\<forall>c \<in> set (Cards h). \<forall>d \<in> set (Cards h). Suit c = Suit d)"
  unfolding IsFlush5 [OF assms] assms by auto

text \<open>
  Claim C8.  Two hands of five cards with the same cards in any order, each sorted with
  \<^verbatim>\<open>SortHand\<close>, resolve to the same category and get the same score (and a score is
  returned).
\<close>

theorem SortHand_order_independent:
  assumes "length (Cards h1) = 5"
    and "mset (Cards h1) = mset (Cards h2)"
  shows "ResolveCategory (SortHand h1) = ResolveCategory (SortHand h2)
    \<and> EvaluateHand (SortHand h1) = EvaluateHand (SortHand h2)
    \<and> (\<exists>score. EvaluateHand (SortHand h1) = Some score)"
proof -
  let ?s1 = "Cards (SortHand h1)" and ?s2 = "Cards (SortHand h2)"
  have m: "mset ?s1 = mset ?s2"
    using assms(2) by (simp add: SortHand_sorts(2))
  have "length ?s1 = 5"
    using assms(1) SortHand_sorts(2) [of h1] by (metis size_mset)
  moreover from this m have "length ?s2 = 5"
    by (metis size_mset)
  ultimately obtain a0 a1 a2 a3 a4 b0 b1 b2 b3 b4
    where c1: "?s1 = [a0, a1, a2, a3, a4]" and c2: "?s2 = [b0, b1, b2, b3, b4]"
    using exactly_five by metis
  have "mset (map Rank ?s1) = mset (map Rank ?s2)"
    using m by simp
  from properties_for_sort [OF this SortHand_sorts(1)]
  have ranks: "map Rank ?s1 = map Rank ?s2"
    using sorted_sort_id [OF SortHand_sorts(1) [of h2]] by simp
  have "set ?s1 = set ?s2"
    using m by (rule mset_eq_setD)
  then have flush: "IsFlush (SortHand h1) = IsFlush (SortHand h2)"
    unfolding IsFlush_set [OF c1] IsFlush_set [OF c2] by simp
  from EvaluateHand_ranks_flush [OF c1 c2 ranks flush] EvaluateHand_first_five(3) [OF c1 c1]
  show ?thesis
    by simp
qed

theorem SortHand_order_independent_witness:
  "length (Cards main_hand1) = 5
   \<and> mset (Cards main_hand1) = mset (Cards main_hand1_shuffled)
   \<and> ResolveCategory (SortHand main_hand1) = Some FullHouse
   \<and> ResolveCategory (SortHand main_hand1_shuffled) = Some FullHouse
   \<and> EvaluateHand (SortHand main_hand1) = EvaluateHand (SortHand main_hand1_shuffled)"
proof -
  have l: "length (Cards main_hand1) = 5"
    by (simp add: main_hand1_def hand_of_def)
  have m: "mset (Cards main_hand1) = mset (Cards main_hand1_shuffled)"
    by (simp add: main_hand1_def main_hand1_shuffled_def hand_of_def)
  have r: "ResolveCategory (SortHand main_hand1) = Some FullHouse"
    by code_simp
  from SortHand_order_independent [OF l m] l m r show ?thesis
    by simp
qed

section \<open>Inputs on which the score departs from the specification\<close>

text \<open>
  Claim C1 asks that a hand of a stronger category always outscores a hand of a weaker one.
  The code breaks it: the straight 2, 3, 4, 5, 6 (category 5) scores \<open>5 * 14^5 + 6\<close>, and the
  three aces with 2 and 3 (category 4, Set) score \<open>4 * 14^5 + 14 * 14^4 + 14 = 5 * 14^5 + 14\<close>,
  which is more.  The Straight branch (line 323) adds only the top card, with weight 1, where
  every other branch has a term of weight \<open>14^4\<close>; so a straight stays within 14 of
  \<open>5 * 14^5\<close>, and the three aces, whose \<open>14 * 14^4\<close> is one more \<open>14^5\<close>, reach it.
\<close>

theorem set_of_aces_beats_straight:
  "sorted (map Rank (Cards six_high_straight)) \<and> sorted (map Rank (Cards set_of_aces))
   \<and> ResolveCategory six_high_straight = Some Straight
   \<and> ResolveCategory set_of_aces = Some Set_rank
   \<and> HandRank_value Set_rank < HandRank_value Straight
   \<and> EvaluateHand six_high_straight = Some 2689126
   \<and> EvaluateHand set_of_aces = Some 2689134"
  by code_simp

text \<open>
  Claim C2 asks that a full house scores \<open>7 * 14^5\<close> plus the triple's rank times \<open>14^4\<close> plus
  the pair's rank with a positive weight.  The code subtracts the rank of the card at
  position 4: the triple's own rank when the pair is low (\<^verbatim>\<open>hand1\<close> of \<^verbatim>\<open>main\<close>, sorted:
  10, 10, K, K, K), the pair's rank when the pair is high (2, 2, 2, 3, 3).
\<close>

theorem full_house_subtracts:
  "map Rank (Cards (SortHand main_hand1)) = [Ten, Ten, King, King, King]
   \<and> ResolveCategory (SortHand main_hand1) = Some FullHouse
   \<and> EvaluateHand (SortHand main_hand1) = Some (7 * 14 ^ 5 + King * 14 ^ 4 - King)
   \<and> map Rank (Cards twos_full_of_threes) = [Two, Two, Two, Three, Three]
   \<and> ResolveCategory twos_full_of_threes = Some FullHouse
   \<and> EvaluateHand twos_full_of_threes = Some (7 * 14 ^ 5 + Two * 14 ^ 4 - Three)"
  by code_simp

text \<open>
  Claim C3 asks that four of a kind scores \<open>8 * 14^5\<close> plus the quad's rank times \<open>14^4\<close> plus
  the rank of the fifth card, in both layouts.  The code always adds the rank at position 4:
  with the kicker low (2, K, K, K, K) that is the quad's rank again and the kicker 2 is
  ignored; with the kicker high (K, K, K, K, A) it is the kicker.
\<close>

theorem quad_low_kicker_ignored:
  "map Rank (Cards kings_with_two) = [Two, King, King, King, King]
   \<and> ResolveCategory kings_with_two = Some Quad
   \<and> EvaluateHand kings_with_two = Some (8 * 14 ^ 5 + King * 14 ^ 4 + King)
   \<and> map Rank (Cards kings_with_ace) = [King, King, King, King, Ace]
   \<and> ResolveCategory kings_with_ace = Some Quad
   \<and> EvaluateHand kings_with_ace = Some (8 * 14 ^ 5 + King * 14 ^ 4 + Ace)"
  by code_simp

text \<open>
  Claim C4 asks that two pairs score \<open>3 * 14^5\<close> plus the higher pair's rank times \<open>14^4\<close> plus
  the lower pair's rank times \<open>14^3\<close> plus the kicker, in the three layouts.  The code does so
  only with the kicker in the middle (3, 3, 5, Q, Q).  With the kicker high (2, 2, 3, 3, K)
  the second branch is taken, the kicker gets the weight \<open>14^4\<close> and the higher pair the
  weight 1; with the kicker low (2, 3, 3, Q, Q) the lower pair's rank is added once more in
  place of the kicker.  So threes and twos with a king outscore queens and threes.
\<close>

theorem two_pair_layouts_misread:
  "map Rank (Cards twos_threes_king) = [Two, Two, Three, Three, King]
   \<and> ResolveCategory twos_threes_king = Some TwoPair
   \<and> EvaluateHand twos_threes_king = Some (3 * 14 ^ 5 + King * 14 ^ 4 + Two * 14 ^ 3 + Three)
   \<and> map Rank (Cards two_threes_queens) = [Two, Three, Three, Queen, Queen]
   \<and> ResolveCategory two_threes_queens = Some TwoPair
   \<and> EvaluateHand two_threes_queens = Some (3 * 14 ^ 5 + Queen * 14 ^ 4 + Three * 14 ^ 3 + Three)
   \<and> map Rank (Cards threes_five_queens) = [Three, Three, Five, Queen, Queen]
   \<and> ResolveCategory threes_five_queens = Some TwoPair
   \<and> EvaluateHand threes_five_queens = Some (3 * 14 ^ 5 + Queen * 14 ^ 4 + Three * 14 ^ 3 + Five)
   \<and> the (EvaluateHand two_threes_queens) < the (EvaluateHand twos_threes_king)"
  by code_simp

end
